theory Spec2Isabelle
  imports Complex_Main
begin

section \<open>The osagent package of orchestrator-agent\<close>

text \<open>
  A shallow embedding of \<^verbatim>\<open>osagent/osagent.go\<close>. Go strings are byte sequences and are
  modelled as \<^typ>\<open>string\<close>. The external programs are a parameter: a function from the
  commands run so far and the command being run to the outcome of \<^verbatim>\<open>exec.Command(...).Output()\<close>.
  The commands run are recorded in a trace that every operation threads through. A Go
  run-time panic (index out of range) is an outcome of its own.
\<close>

subsection \<open>Values\<close>

text \<open>
  A \<^verbatim>\<open>float64\<close>: the finite values (as the reals they denote), the two infinities and
  NaN, with the comparisons of IEEE 754 that Go's \<^verbatim>\<open>>=\<close> and \<^verbatim>\<open><\<close> implement: every
  comparison with NaN is false.
\<close>

datatype float64 = Finite real | PosInf | NegInf | NaN

fun float64_ge :: "float64 \<Rightarrow> float64 \<Rightarrow> bool" where
  "float64_ge NaN y = False"
| "float64_ge x NaN = False"
| "float64_ge PosInf y = True"
| "float64_ge x NegInf = True"
| "float64_ge NegInf y = False"
| "float64_ge x PosInf = False"
| "float64_ge (Finite a) (Finite b) = (b \<le> a)"

fun float64_lt :: "float64 \<Rightarrow> float64 \<Rightarrow> bool" where
  "float64_lt NaN y = False"
| "float64_lt x NaN = False"
| "float64_lt PosInf y = False"
| "float64_lt x NegInf = False"
| "float64_lt NegInf y = True"
| "float64_lt x PosInf = True"
| "float64_lt (Finite a) (Finite b) = (a < b)"

text \<open>The ways a \<^verbatim>\<open>*strconv.NumError\<close> fails, and the errors the package can return.\<close>

datatype num_err = ErrSyntax | ErrRange

datatype error =
    ExecError string
  | ErrorString string
  | NumError string string num_err

text \<open>A call either returns or panics with an index out of range.\<close>

datatype 'a run = IndexOutOfRange | Returned 'a

record LogicalVolume =
  Name :: string
  GroupName :: string
  Path :: string
  IsSnapshot :: bool
  SnapshotPercent :: float64

record Mount =
  Path :: string
  Device :: string
  LVPath :: string
  FileSystem :: string
  IsMounted :: bool
  DiskUsage :: int

text \<open>
  The options of \<^verbatim>\<open>config.Config\<close> that the package reads. The configuration package is
  not part of the sources at hand: its values are a parameter of the operations that use them.
\<close>

record Configuration =
  SnapshotMountPoint :: string
  SnapshotVolumesFilter :: string
  AvailableLocalSnapshotHostsCommand :: string
  AvailableSnapshotHostsCommand :: string
  MySQLServiceStatusCommand :: string
  MySQLServiceStopCommand :: string
  MySQLServiceStartCommand :: string

text \<open>
  A command as \<^verbatim>\<open>exec.Command\<close> receives it (program name, arguments); the trace of the
  commands run; the operating system: given the commands run before and the command, the
  error of \<^verbatim>\<open>Output()\<close> (the program did not start or exited non-zero) or its standard output.
\<close>

type_synonym command = "string \<times> string list"

type_synonym trace = "command list"

type_synonym os = "trace \<Rightarrow> command \<Rightarrow> error + string"

subsection \<open>The library functions the package calls\<close>

abbreviation (input) newline :: char where
  "newline \<equiv> CHR 0x0A"

abbreviation (input) tab :: char where
  "tab \<equiv> CHR 0x09"

abbreviation (input) space :: char where
  "space \<equiv> CHR 0x20"

text \<open>\<^verbatim>\<open>strings.Trim(s, "\\n")\<close>: with a cutset of one ASCII byte, Go drops that byte from the
  front while it is there, then from the back while it is there.\<close>

fun trimLeftByte :: "string \<Rightarrow> char \<Rightarrow> string" where
  "trimLeftByte [] c = []"
| "trimLeftByte (x # xs) c = (if x = c then trimLeftByte xs c else x # xs)"

definition trimRightByte :: "string \<Rightarrow> char \<Rightarrow> string" where
  "trimRightByte s c = rev (trimLeftByte (rev s) c)"

definition Trim :: "string \<Rightarrow> char \<Rightarrow> string" where
  "Trim s c = trimRightByte (trimLeftByte s c) c"

text \<open>\<^verbatim>\<open>strings.Split(s, sep)\<close> for a separator of one byte: the pieces between the
  separators, in order; one piece more than there are separators.\<close>

fun Split :: "string \<Rightarrow> char \<Rightarrow> string list" where
  "Split [] c = [[]]"
| "Split (x # xs) c =
     (if x = c then [] # Split xs c
      else (case Split xs c of [] \<Rightarrow> [[x]] | p # ps \<Rightarrow> (x # p) # ps))"

text \<open>\<^verbatim>\<open>strings.Contains(s, substr)\<close>.\<close>

fun HasPrefix :: "string \<Rightarrow> string \<Rightarrow> bool" where
  "HasPrefix s [] = True"
| "HasPrefix [] (p # ps) = False"
| "HasPrefix (x # xs) (p # ps) = (x = p \<and> HasPrefix xs ps)"

fun Contains :: "string \<Rightarrow> string \<Rightarrow> bool" where
  "Contains [] substr = (substr = [])"
| "Contains (x # xs) substr = (HasPrefix (x # xs) substr \<or> Contains xs substr)"

text \<open>
  \<^verbatim>\<open>regexp.MustCompile(p).Split(s, -1)\<close> for a pattern \<^verbatim>\<open>[...]+\<close> over a class of bytes,
  which is the only kind of pattern the package compiles. The matches are the maximal runs of
  bytes of the class. An empty input gives one empty piece; otherwise the piece before each
  run is kept (also the empty one before a leading run) and so is the piece after the last run
  (also when it is empty).
\<close>

function regexpSplit :: "(char \<Rightarrow> bool) \<Rightarrow> string \<Rightarrow> string list" where
  "regexpSplit cls [] = [[]]"
| "regexpSplit cls (x # xs) =
     (if cls x then [] # regexpSplit cls (dropWhile cls xs)
      else (case regexpSplit cls xs of [] \<Rightarrow> [[x]] | p # ps \<Rightarrow> (x # p) # ps))"
  by pat_completeness auto
termination
  by (relation "measure (\<lambda>(cls, s). length s)")
     (auto simp: length_dropWhile_le le_imp_less_Suc)

text \<open>The class of \<^verbatim>\<open>[ ]+\<close> and the class of \<^verbatim>\<open>[ \\t]+\<close>.\<close>

definition isBlank :: "char \<Rightarrow> bool" where
  "isBlank c = (c = space)"

definition isBlankOrTab :: "char \<Rightarrow> bool" where
  "isBlankOrTab c = (c = space \<or> c = tab)"

text \<open>
  \<^verbatim>\<open>strings.TrimSpace\<close> drops the leading and the trailing runes for which
  \<^verbatim>\<open>unicode.IsSpace\<close> holds. On the bytes of the string these runes are the following UTF-8
  sequences (tab, LF, VT, FF, CR, space, U+0085, U+00A0, U+1680, U+2000 to U+200A, U+2028,
  U+2029, U+202F, U+205F, U+3000); a byte that starts none of them is no space.
\<close>

definition whiteSpace :: "string list" where
  "whiteSpace =
     [[CHR 0x09], [CHR 0x0A], [CHR 0x0B], [CHR 0x0C], [CHR 0x0D], [CHR 0x20],
      [CHR 0xC2, CHR 0x85], [CHR 0xC2, CHR 0xA0],
      [CHR 0xE1, CHR 0x9A, CHR 0x80],
      [CHR 0xE2, CHR 0x80, CHR 0x80], [CHR 0xE2, CHR 0x80, CHR 0x81],
      [CHR 0xE2, CHR 0x80, CHR 0x82], [CHR 0xE2, CHR 0x80, CHR 0x83],
      [CHR 0xE2, CHR 0x80, CHR 0x84], [CHR 0xE2, CHR 0x80, CHR 0x85],
      [CHR 0xE2, CHR 0x80, CHR 0x86], [CHR 0xE2, CHR 0x80, CHR 0x87],
      [CHR 0xE2, CHR 0x80, CHR 0x88], [CHR 0xE2, CHR 0x80, CHR 0x89],
      [CHR 0xE2, CHR 0x80, CHR 0x8A],
      [CHR 0xE2, CHR 0x80, CHR 0xA8], [CHR 0xE2, CHR 0x80, CHR 0xA9],
      [CHR 0xE2, CHR 0x80, CHR 0xAF], [CHR 0xE2, CHR 0x81, CHR 0x9F],
      [CHR 0xE3, CHR 0x80, CHR 0x80]]"

text \<open>The number of bytes of the white-space rune a string starts with (0: none).\<close>

definition spaceWidth :: "string list \<Rightarrow> string \<Rightarrow> nat" where
  "spaceWidth ws s = (case find (\<lambda>w. HasPrefix s w) ws of None \<Rightarrow> 0 | Some w \<Rightarrow> length w)"

function trimLeftSpace :: "string list \<Rightarrow> string \<Rightarrow> string" where
  "trimLeftSpace ws s =
     (if s = [] \<or> spaceWidth ws s = 0 then s else trimLeftSpace ws (drop (spaceWidth ws s) s))"
  by pat_completeness auto
termination
  by (relation "measure (\<lambda>(ws, s). length s)") auto

definition TrimSpace :: "string \<Rightarrow> string" where
  "TrimSpace s =
     rev (trimLeftSpace (map rev whiteSpace) (rev (trimLeftSpace whiteSpace s)))"

text \<open>
  \<^verbatim>\<open>strconv.ParseInt(s, 10, 0)\<close> on a platform whose \<^verbatim>\<open>int\<close> has 64 bits. \<^verbatim>\<open>ParseUint\<close>
  reads the digits from the left into a \<^verbatim>\<open>uint64\<close>; it stops at the first byte that is no
  decimal digit (syntax) or at the first step that leaves the 64 bits (range), whichever
  comes first.
\<close>

definition IntSize :: nat where
  "IntSize = 64"

definition maxUint64 :: nat where
  "maxUint64 = 2 ^ 64 - 1"

definition cutoff64 :: nat where
  "cutoff64 = maxUint64 div 10 + 1"

definition digit :: "char \<Rightarrow> nat option" where
  "digit d = (let n = (of_char d :: nat) in if 48 \<le> n \<and> n \<le> 57 then Some (n - 48) else None)"

fun ParseUint_loop :: "nat \<Rightarrow> string \<Rightarrow> nat \<times> num_err option" where
  "ParseUint_loop n [] = (n, None)"
| "ParseUint_loop n (d # ds) =
     (case digit d of
        None \<Rightarrow> (0, Some ErrSyntax)
      | Some v \<Rightarrow>
          if cutoff64 \<le> n then (maxUint64, Some ErrRange)
          else
            let n10 = n * 10;
                n1 = (n10 + v) mod 2 ^ 64
            in if n1 < n10 \<or> maxUint64 < n1 then (maxUint64, Some ErrRange)
               else ParseUint_loop n1 ds)"

definition ParseUint :: "string \<Rightarrow> nat \<times> num_err option" where
  "ParseUint s = (if s = [] then (0, Some ErrSyntax) else ParseUint_loop 0 s)"

definition ParseInt :: "string \<Rightarrow> int \<times> error option" where
  "ParseInt s0 =
     (if s0 = [] then (0, Some (NumError ''ParseInt'' s0 ErrSyntax))
      else
        let neg = (hd s0 = CHR ''-'');
            s = (if hd s0 = CHR ''+'' \<or> neg then tl s0 else s0);
            (un, err) = ParseUint s;
            cutoff = (2::nat) ^ (IntSize - 1)
        in if err = Some ErrSyntax then (0, Some (NumError ''ParseInt'' s0 ErrSyntax))
           else if \<not> neg \<and> cutoff \<le> un
             then (int cutoff - 1, Some (NumError ''ParseInt'' s0 ErrRange))
           else if neg \<and> cutoff < un
             then (- int cutoff, Some (NumError ''ParseInt'' s0 ErrRange))
           else ((if neg then - int un else int un), None))"

text \<open>
  \<^verbatim>\<open>strconv.ParseFloat(s, 32)\<close>. What the result is, given how the text scans, is the
  library's documented contract: a well-formed number in range is returned with no error;
  text that is no number gives 0 and a syntax error; a well-formed number too large for a
  \<^verbatim>\<open>float32\<close> gives the infinity of its sign and a range error. How a text scans (the grammar
  of numbers, the rounding) is a parameter of the model.
\<close>

datatype float_scan = Parsed float64 | NotANumber | TooLarge bool

type_synonym atof = "string \<Rightarrow> float_scan"

definition ParseFloat :: "atof \<Rightarrow> string \<Rightarrow> float64 \<times> error option" where
  "ParseFloat scan s =
     (case scan s of
        Parsed f \<Rightarrow> (f, None)
      | NotANumber \<Rightarrow> (Finite 0, Some (NumError ''ParseFloat'' s ErrSyntax))
      | TooLarge neg \<Rightarrow>
          ((if neg then NegInf else PosInf), Some (NumError ''ParseFloat'' s ErrRange)))"

subsection \<open>The package\<close>

definition IsSnapshotValid :: "LogicalVolume \<Rightarrow> bool" where
  "IsSnapshotValid this =
     (if \<not> IsSnapshot this then False
      else if float64_ge (SnapshotPercent this) (Finite 100) then False
      else True)"

text \<open>\<^verbatim>\<open>tokens[0]\<close> is in range: a split has at least one piece (\<open>regexpSplit_not_Nil\<close> below).\<close>

definition commandSplit :: "string \<Rightarrow> command" where
  "commandSplit commandText =
     (let tokens = regexpSplit isBlank (TrimSpace commandText)
      in (hd tokens, tl tokens))"

text \<open>The logger returns the error it is given; what it prints is not modelled.\<close>

definition commandOutput :: "os \<Rightarrow> string \<Rightarrow> trace \<Rightarrow> (string \<times> error option) \<times> trace" where
  "commandOutput sys commandText tr =
     (let cmd = commandSplit commandText
      in ((case sys tr cmd of Inl err \<Rightarrow> ([], Some err) | Inr outputBytes \<Rightarrow> (outputBytes, None)),
          tr @ [cmd]))"

definition outputLines :: "string \<Rightarrow> error option \<Rightarrow> string list \<times> error option" where
  "outputLines outputBytes err =
     (case err of
        Some e \<Rightarrow> ([], Some e)
      | None \<Rightarrow> (Split (Trim outputBytes newline) newline, None))"

definition outputTokens ::
  "(char \<Rightarrow> bool) \<Rightarrow> string \<Rightarrow> error option \<Rightarrow> string list list \<times> error option" where
  "outputTokens delimiterPattern outputBytes err =
     (case outputLines outputBytes err of
        (lines, Some e) \<Rightarrow> ([], Some e)
      | (lines, None) \<Rightarrow> (map (regexpSplit delimiterPattern) lines, None))"

definition lvsCommand :: "string \<Rightarrow> string" where
  "lvsCommand volumeName =
     ''lvs --noheading -o lv_name,vg_name,lv_path,snap_percent '' @ volumeName"

text \<open>The body of the loop of \<^verbatim>\<open>LogicalVolumes\<close> on a row the indices 1 to 4 are in range of.\<close>

definition rowVolume :: "atof \<Rightarrow> string list \<Rightarrow> LogicalVolume" where
  "rowVolume scan lineTokens =
     (let (percent, err) = ParseFloat scan (lineTokens ! 4)
      in \<lparr>Name = lineTokens ! 1, GroupName = lineTokens ! 2, LogicalVolume.Path = lineTokens ! 3,
          IsSnapshot = (err = None), SnapshotPercent = percent\<rparr>)"

fun LogicalVolumes_loop ::
  "atof \<Rightarrow> string \<Rightarrow> string list list \<Rightarrow> LogicalVolume list \<Rightarrow> LogicalVolume list run" where
  "LogicalVolumes_loop scan filterPattern [] logicalVolumes = Returned logicalVolumes"
| "LogicalVolumes_loop scan filterPattern (lineTokens # rest) logicalVolumes =
     (if length lineTokens < 5 then IndexOutOfRange
      else
        let logicalVolume = rowVolume scan lineTokens
        in LogicalVolumes_loop scan filterPattern rest
             (if Contains (Name logicalVolume) filterPattern
              then logicalVolumes @ [logicalVolume] else logicalVolumes))"

definition LogicalVolumes ::
  "atof \<Rightarrow> os \<Rightarrow> string \<Rightarrow> string \<Rightarrow> trace \<Rightarrow> (LogicalVolume list \<times> error option) run \<times> trace" where
  "LogicalVolumes scan sys volumeName filterPattern tr =
     (let ((output, err0), tr1) = commandOutput sys (lvsCommand volumeName) tr;
          (tokens, err) = outputTokens isBlankOrTab output err0
      in case err of
           Some e \<Rightarrow> (Returned ([], Some e), tr1)
         | None \<Rightarrow>
             (case LogicalVolumes_loop scan filterPattern tokens [] of
                IndexOutOfRange \<Rightarrow> (IndexOutOfRange, tr1)
              | Returned logicalVolumes \<Rightarrow> (Returned (logicalVolumes, None), tr1)))"

definition GetLogicalVolumePath ::
  "atof \<Rightarrow> os \<Rightarrow> string \<Rightarrow> trace \<Rightarrow> (string \<times> error option) run \<times> trace" where
  "GetLogicalVolumePath scan sys volumeName tr =
     (case LogicalVolumes scan sys volumeName [] tr of
        (IndexOutOfRange, tr1) \<Rightarrow> (IndexOutOfRange, tr1)
      | (Returned (logicalVolumes, err), tr1) \<Rightarrow>
          if err = None \<and> 0 < length logicalVolumes
          then (Returned (LogicalVolume.Path (logicalVolumes ! 0), None), tr1)
          else (Returned ([], Some (ErrorString (''logical volume not found: '' @ volumeName))),
                tr1))"

text \<open>\<^verbatim>\<open>lineTokens[0]\<close> is in range: a split has at least one piece.\<close>

definition DiskUsage :: "os \<Rightarrow> string \<Rightarrow> trace \<Rightarrow> (int \<times> error option) \<times> trace" where
  "DiskUsage sys path tr =
     (let ((output, err0), tr1) = commandOutput sys (''du -sb '' @ path) tr;
          (tokens, err) = outputTokens isBlankOrTab output err0
      in case err of
           Some e \<Rightarrow> ((0, Some e), tr1)
         | None \<Rightarrow>
             (case tokens of
                [] \<Rightarrow> ((0, None), tr1)
              | lineTokens # rest \<Rightarrow> (ParseInt (hd lineTokens), tr1)))"

definition unmounted :: "string \<Rightarrow> Mount" where
  "unmounted mountPoint =
     \<lparr>Mount.Path = mountPoint, Device = [], LVPath = [], FileSystem = [],
      IsMounted = False, Mount.DiskUsage = 0\<rparr>"

fun GetMount_loop ::
  "atof \<Rightarrow> os \<Rightarrow> string \<Rightarrow> string list list \<Rightarrow> Mount \<Rightarrow> trace \<Rightarrow> Mount run \<times> trace" where
  "GetMount_loop scan sys mountPoint [] mount tr = (Returned mount, tr)"
| "GetMount_loop scan sys mountPoint (lineTokens # rest) mount tr =
     (if length lineTokens < 3 then (IndexOutOfRange, tr)
      else
        case GetLogicalVolumePath scan sys (lineTokens ! 0) tr of
          (IndexOutOfRange, tr1) \<Rightarrow> (IndexOutOfRange, tr1)
        | (Returned (lvPath, err1), tr1) \<Rightarrow>
            let ((usage, err2), tr2) = DiskUsage sys mountPoint tr1
            in GetMount_loop scan sys mountPoint rest
                 (mount\<lparr>IsMounted := True, Device := lineTokens ! 0,
                        Mount.Path := lineTokens ! 1, FileSystem := lineTokens ! 2,
                        LVPath := lvPath, Mount.DiskUsage := usage\<rparr>)
                 tr2)"

definition GetMount ::
  "atof \<Rightarrow> os \<Rightarrow> string \<Rightarrow> trace \<Rightarrow> (Mount \<times> error option) run \<times> trace" where
  "GetMount scan sys mountPoint tr =
     (let mount = unmounted mountPoint;
          ((output, err0), tr1) = commandOutput sys (''grep '' @ mountPoint @ '' /etc/mtab'') tr;
          (tokens, err) = outputTokens isBlankOrTab output err0
      in case err of
           Some e \<Rightarrow> (Returned (mount, None), tr1)
         | None \<Rightarrow>
             (case GetMount_loop scan sys mountPoint tokens mount tr1 of
                (IndexOutOfRange, tr2) \<Rightarrow> (IndexOutOfRange, tr2)
              | (Returned m, tr2) \<Rightarrow> (Returned (m, None), tr2)))"

definition MountLV ::
  "atof \<Rightarrow> os \<Rightarrow> string \<Rightarrow> string \<Rightarrow> trace \<Rightarrow> (Mount \<times> error option) run \<times> trace" where
  "MountLV scan sys mountPoint volumeName tr =
     (let mount = unmounted mountPoint
      in if volumeName = [] then
           (Returned (mount, Some (ErrorString ''Empty columeName in MountLV'')), tr)
         else
           let ((output, err), tr1) =
                 commandOutput sys (''mount '' @ volumeName @ '' '' @ mountPoint) tr
           in case err of
                Some e \<Rightarrow> (Returned (mount, Some e), tr1)
              | None \<Rightarrow> GetMount scan sys mountPoint tr1)"

definition Unmount ::
  "atof \<Rightarrow> os \<Rightarrow> string \<Rightarrow> trace \<Rightarrow> (Mount \<times> error option) run \<times> trace" where
  "Unmount scan sys mountPoint tr =
     (let mount = unmounted mountPoint;
          ((output, err), tr1) = commandOutput sys (''umount '' @ mountPoint) tr
      in case err of
           Some e \<Rightarrow> (Returned (mount, Some e), tr1)
         | None \<Rightarrow> GetMount scan sys mountPoint tr1)"

definition AvailableSnapshots ::
  "Configuration \<Rightarrow> os \<Rightarrow> bool \<Rightarrow> trace \<Rightarrow> (string list \<times> error option) \<times> trace" where
  "AvailableSnapshots config sys requireLocal tr =
     (let command = (if requireLocal then AvailableLocalSnapshotHostsCommand config
                     else AvailableSnapshotHostsCommand config);
          ((output, err), tr1) = commandOutput sys command tr
      in (outputLines output err, tr1))"

definition MySQLRunning :: "Configuration \<Rightarrow> os \<Rightarrow> trace \<Rightarrow> (bool \<times> error option) \<times> trace" where
  "MySQLRunning config sys tr =
     (let ((output, err), tr1) = commandOutput sys (MySQLServiceStatusCommand config) tr
      in ((err = None, None), tr1))"

definition MySQLStop :: "Configuration \<Rightarrow> os \<Rightarrow> trace \<Rightarrow> error option \<times> trace" where
  "MySQLStop config sys tr =
     (let ((output, err), tr1) = commandOutput sys (MySQLServiceStopCommand config) tr
      in (err, tr1))"

definition MySQLStart :: "Configuration \<Rightarrow> os \<Rightarrow> trace \<Rightarrow> error option \<times> trace" where
  "MySQLStart config sys tr =
     (let ((output, err), tr1) = commandOutput sys (MySQLServiceStartCommand config) tr
      in (err, tr1))"

subsection \<open>Notions the properties are stated with\<close>

text \<open>
  The first field of the first row of an output; a decimal numeral (an optional sign, then one
  digit at least) and the integer it denotes.
\<close>

definition firstField :: "string \<Rightarrow> string" where
  "firstField outputBytes =
     hd (regexpSplit isBlankOrTab (hd (Split (Trim outputBytes newline) newline)))"

definition isDecimal :: "string \<Rightarrow> bool" where
  "isDecimal s =
     (let ds = (if s \<noteq> [] \<and> (hd s = CHR ''+'' \<or> hd s = CHR ''-'') then tl s else s)
      in ds \<noteq> [] \<and> list_all (\<lambda>d. digit d \<noteq> None) ds)"

definition decimalValue :: "string \<Rightarrow> nat" where
  "decimalValue ds = foldl (\<lambda>n d. 10 * n + the (digit d)) 0 ds"

definition decimalInt :: "string \<Rightarrow> int" where
  "decimalInt s =
     (if s \<noteq> [] \<and> hd s = CHR ''-'' then - int (decimalValue (tl s))
      else if s \<noteq> [] \<and> hd s = CHR ''+'' then int (decimalValue (tl s))
      else int (decimalValue s))"

text \<open>
  The rows of fields of an output: its lines, each split at its runs of spaces and tabs.
\<close>

definition outputRows :: "string \<Rightarrow> string list list" where
  "outputRows outputBytes =
     map (regexpSplit isBlankOrTab) (Split (Trim outputBytes newline) newline)"

text \<open>
  The pieces of a split joined again, each separator between two neighbours; the maximal runs
  of the bytes of a class in a string, in order.
\<close>

fun joinWith :: "string list \<Rightarrow> string list \<Rightarrow> string" where
  "joinWith [] seps = []"
| "joinWith (p # ps) [] = p"
| "joinWith (p # ps) (sep # seps) = p @ sep @ joinWith ps seps"

function runsOf :: "(char \<Rightarrow> bool) \<Rightarrow> string \<Rightarrow> string list" where
  "runsOf cls [] = []"
| "runsOf cls (x # xs) =
     (if cls x then (x # takeWhile cls xs) # runsOf cls (dropWhile cls xs)
      else runsOf cls xs)"
  by pat_completeness auto
termination
  by (relation "measure (\<lambda>(cls, s). length s)")
     (auto simp: length_dropWhile_le le_imp_less_Suc)

section \<open>Properties\<close>

subsection \<open>Splitting and trimming\<close>

lemma regexpSplit_not_Nil: "regexpSplit cls s \<noteq> []"
  by (induction cls s rule: regexpSplit.induct) (auto split: list.splits)

lemma regexpSplit_free_all: "\<forall>t \<in> set (regexpSplit cls s). \<forall>c \<in> set t. \<not> cls c"
proof (induction cls s rule: regexpSplit.induct)
  case (1 cls)
  then show ?case by simp
next
  case (2 cls x xs)
  show ?case
  proof (cases "cls x")
    case True
    with 2 show ?thesis by simp
  next
    case False
    with 2 show ?thesis by (cases "regexpSplit cls xs") auto
  qed
qed

lemma regexpSplit_free: "t \<in> set (regexpSplit cls s) \<Longrightarrow> c \<in> set t \<Longrightarrow> \<not> cls c"
  using regexpSplit_free_all by blast

lemma filter_dropWhile_cls: "filter (\<lambda>c. \<not> cls c) (dropWhile cls xs) = filter (\<lambda>c. \<not> cls c) xs"
  by (induction xs) auto

lemma concat_regexpSplit: "concat (regexpSplit cls s) = filter (\<lambda>c. \<not> cls c) s"
  by (induction cls s rule: regexpSplit.induct) (auto simp: filter_dropWhile_cls split: list.splits)

lemma Split_not_Nil: "Split s c \<noteq> []"
  by (induction s c rule: Split.induct) (auto split: list.splits)

lemma Split_free: "l \<in> set (Split s c) \<Longrightarrow> c \<notin> set l"
  by (induction s c arbitrary: l rule: Split.induct) (auto split: if_splits list.splits)

lemma Split_join: "concat (map ((#) c) (Split s c)) = c # s"
  by (induction s c rule: Split.induct) (auto split: list.splits)

lemma trimLeftByte_dropWhile: "trimLeftByte s c = dropWhile (\<lambda>x. x = c) s"
  by (induction s c rule: trimLeftByte.induct) auto

lemma Trim_strip: "Trim s c = rev (dropWhile (\<lambda>x. x = c) (rev (dropWhile (\<lambda>x. x = c) s)))"
  by (simp add: Trim_def trimRightByte_def trimLeftByte_dropWhile)

subsection \<open>Validity of a snapshot\<close>

text \<open>
  Claim C6, amended. \<^verbatim>\<open>IsSnapshotValid\<close> is true exactly when \<^verbatim>\<open>IsSnapshot\<close> is true and the
  comparison \<^verbatim>\<open>SnapshotPercent >= 100.0\<close> is false. For a finite percent that is: a snapshot
  with a percent strictly below 100; exactly 100 is invalid, and so is plus infinity. The
  comparison is also false for NaN, so a snapshot whose percent is NaN is valid (and one whose
  percent is minus infinity).
\<close>

theorem IsSnapshotValid_iff:
  "(IsSnapshotValid lv \<longleftrightarrow> IsSnapshot lv \<and> \<not> float64_ge (SnapshotPercent lv) (Finite 100))
   \<and> (IsSnapshotValid (lv\<lparr>SnapshotPercent := Finite r\<rparr>) \<longleftrightarrow> IsSnapshot lv \<and> r < 100)
   \<and> (IsSnapshotValid (lv\<lparr>SnapshotPercent := PosInf\<rparr>) \<longleftrightarrow> False)
   \<and> (IsSnapshotValid (lv\<lparr>SnapshotPercent := NegInf\<rparr>) \<longleftrightarrow> IsSnapshot lv)
   \<and> (IsSnapshotValid (lv\<lparr>SnapshotPercent := NaN\<rparr>) \<longleftrightarrow> IsSnapshot lv)
   \<and> \<not> IsSnapshotValid (lv\<lparr>SnapshotPercent := Finite 100\<rparr>)"
  by (auto simp: IsSnapshotValid_def)

text \<open>
  The claim as stated (valid iff a snapshot and the percent is strictly less than 100) fails
  for a snapshot whose percent is NaN, which \<^verbatim>\<open>ParseFloat\<close> returns without an error for the
  text \<^verbatim>\<open>NaN\<close>: the volume is valid although NaN is not less than 100.
\<close>

theorem IsSnapshotValid_NaN_counterexample:
  "IsSnapshotValid \<lparr>Name = ''snap'', GroupName = ''vg0'', LogicalVolume.Path = ''/dev/vg0/snap'',
      IsSnapshot = True, SnapshotPercent = NaN\<rparr>
   \<and> \<not> float64_lt NaN (Finite 100)"
  by (simp add: IsSnapshotValid_def)

subsection \<open>Lines of an output\<close>

text \<open>
  Claim C4, amended. \<^verbatim>\<open>outputLines\<close> passes an error on. Otherwise it returns no error and
  at least one line; it removes every leading and every trailing newline of the output (not
  one trailing newline) and splits the rest at its newlines, in order: the lines joined by
  newlines are the trimmed output, and no line holds a newline. An empty output gives one
  empty line, and an output that ends in two newlines gives no empty line at its end.
\<close>

theorem outputLines_trims_all_newlines:
  "snd (outputLines output None) = None
   \<and> fst (outputLines output None) \<noteq> []
   \<and> concat (map ((#) newline) (fst (outputLines output None))) =
       newline # rev (dropWhile (\<lambda>c. c = newline) (rev (dropWhile (\<lambda>c. c = newline) output)))
   \<and> (\<forall>l \<in> set (fst (outputLines output None)). newline \<notin> set l)
   \<and> outputLines [] None = ([[]], None)
   \<and> outputLines (''a'' @ [newline, newline]) None = ([''a''], None)
   \<and> outputLines output (Some e) = ([], Some e)"
proof -
  have "outputLines [] None = ([[]], None)"
    by (simp add: outputLines_def Trim_def trimRightByte_def)
  moreover have "outputLines (''a'' @ [newline, newline]) None = ([''a''], None)"
    by (simp add: outputLines_def Trim_def trimRightByte_def)
  moreover have "concat (map ((#) newline) (fst (outputLines output None))) =
       newline # rev (dropWhile (\<lambda>c. c = newline) (rev (dropWhile (\<lambda>c. c = newline) output)))"
    by (simp add: outputLines_def Split_join Trim_strip)
  moreover have "\<forall>l \<in> set (fst (outputLines output None)). newline \<notin> set l"
    by (simp add: outputLines_def Split_free)
  moreover have "fst (outputLines output None) \<noteq> []" "snd (outputLines output None) = None"
    "outputLines output (Some e) = ([], Some e)"
    by (simp_all add: outputLines_def Split_not_Nil)
  ultimately show ?thesis by blast
qed

theorem outputLines_trims_all_newlines_witness:
  "''b'' \<in> set (fst (outputLines ([newline] @ ''a'' @ [newline] @ ''b'' @ [newline, newline]) None))
   \<and> newline \<notin> set ''b''
   \<and> fst (outputLines ([newline] @ ''a'' @ [newline] @ ''b'' @ [newline, newline]) None) = [''a'', ''b'']"
proof -
  have "fst (outputLines ([newline] @ ''a'' @ [newline] @ ''b'' @ [newline, newline]) None) = [''a'', ''b'']"
    by code_simp
  then show ?thesis
    using outputLines_trims_all_newlines [of "[newline] @ ''a'' @ [newline] @ ''b'' @ [newline, newline]"]
    by simp
qed

text \<open>
  The claim as stated (one trailing newline is removed, so the second of two trailing
  newlines leaves an empty line) fails: both newlines go.
\<close>

theorem outputLines_double_newline_counterexample:
  "outputLines (''a'' @ [newline, newline]) None = ([''a''], None)
   \<and> outputLines (''a'' @ [newline, newline]) None \<noteq> ([''a'', []], None)"
  by (simp add: outputLines_def Trim_def trimRightByte_def)

subsection \<open>Splitting a command line\<close>

text \<open>
  A split at the runs of a class is the one split of its kind: the pieces and the maximal runs,
  taken in turn, make up the string; no piece holds a byte of the class; no piece but the first
  and the last is empty; and pieces with these properties are the pieces of the split.
\<close>

lemma joinWith_Cons_head: "joinWith ((x # p) # ps) seps = x # joinWith (p # ps) seps"
  by (cases seps) simp_all

lemma regexpSplit_length: "length (regexpSplit cls s) = Suc (length (runsOf cls s))"
proof (induction cls s rule: regexpSplit.induct)
  case (1 cls)
  show ?case by simp
next
  case (2 cls x xs)
  show ?case
  proof (cases "cls x")
    case True
    with 2 show ?thesis by simp
  next
    case False
    with 2 show ?thesis by (cases "regexpSplit cls xs") simp_all
  qed
qed

lemma regexpSplit_joinWith: "joinWith (regexpSplit cls s) (runsOf cls s) = s"
proof (induction cls s rule: regexpSplit.induct)
  case (1 cls)
  show ?case by simp
next
  case (2 cls x xs)
  show ?case
  proof (cases "cls x")
    case True
    with 2 show ?thesis by simp
  next
    case False
    obtain p ps where ps: "regexpSplit cls xs = p # ps"
      using regexpSplit_not_Nil by (cases "regexpSplit cls xs") auto
    with False 2 show ?thesis by (simp add: joinWith_Cons_head)
  qed
qed

lemma runsOf_runs: "\<forall>r \<in> set (runsOf cls s). r \<noteq> [] \<and> (\<forall>c \<in> set r. cls c)"
proof (induction cls s rule: runsOf.induct)
  case (1 cls)
  show ?case by simp
next
  case (2 cls x xs)
  show ?case
  proof (cases "cls x")
    case True
    with 2 show ?thesis by (auto dest: set_takeWhileD)
  next
    case False
    with 2 show ?thesis by simp
  qed
qed

lemma regexpSplit_inner:
  "(\<forall>p \<in> set (butlast (tl (regexpSplit cls s))). p \<noteq> [])
   \<and> ((s = [] \<or> \<not> cls (hd s)) \<longrightarrow> (\<forall>p \<in> set (butlast (regexpSplit cls s)). p \<noteq> []))"
proof (induction cls s rule: regexpSplit.induct)
  case (1 cls)
  show ?case by simp
next
  case (2 cls x xs)
  show ?case
  proof (cases "cls x")
    case True
    let ?d = "dropWhile cls xs"
    have start: "?d = [] \<or> \<not> cls (hd ?d)"
      using hd_dropWhile [of cls xs] by blast
    from "2.IH"(1) [OF True]
    have "(?d = [] \<or> \<not> cls (hd ?d)) \<longrightarrow> (\<forall>p \<in> set (butlast (regexpSplit cls ?d)). p \<noteq> [])"
      by (rule conjunct2)
    with start have all: "\<forall>p \<in> set (butlast (regexpSplit cls ?d)). p \<noteq> []"
      by (rule rev_mp)
    have eq: "regexpSplit cls (x # xs) = [] # regexpSplit cls ?d"
      using True by simp
    show ?thesis
      unfolding eq using all True by simp
  next
    case False
    obtain p ps where ps: "regexpSplit cls xs = p # ps"
      using regexpSplit_not_Nil [of cls xs] by (cases "regexpSplit cls xs") simp_all
    from "2.IH"(2) [OF False]
    have "\<forall>q \<in> set (butlast (tl (regexpSplit cls xs))). q \<noteq> []"
      by (rule conjunct1)
    then have inner: "\<forall>q \<in> set (butlast ps). q \<noteq> []"
      unfolding ps by simp
    have eq: "regexpSplit cls (x # xs) = (x # p) # ps"
      using False ps by simp
    show ?thesis
      unfolding eq using inner by simp
  qed
qed

lemma joinWith_starts:
  "length ps = Suc (length seps) \<Longrightarrow> \<exists>p rest. ps = p # rest \<and> (\<exists>more. joinWith ps seps = p @ more)"
  by (cases ps; cases seps) auto


lemma regexpSplit_unique:
  assumes "length ps = Suc (length seps)"
    and "joinWith ps seps = s"
    and "\<forall>p \<in> set ps. \<forall>c \<in> set p. \<not> cls c"
    and "\<forall>sep \<in> set seps. sep \<noteq> [] \<and> (\<forall>c \<in> set sep. cls c)"
    and "\<forall>p \<in> set (butlast (tl ps)). p \<noteq> []"
  shows "ps = regexpSplit cls s"
  using assms
proof (induction cls s arbitrary: ps seps rule: regexpSplit.induct)
  case (1 cls)
  from "1.prems"(1) obtain p rest where ps: "ps = p # rest" by (cases ps) auto
  show ?case
  proof (cases seps)
    case Nil
    with ps "1.prems"(1,2) show ?thesis by simp
  next
    case (Cons sep seps')
    with ps "1.prems"(2,4) show ?thesis by auto
  qed
next
  case (2 cls x xs)
  from "2.prems"(1) obtain p rest where ps: "ps = p # rest" by (cases ps) auto
  show ?case
  proof (cases "cls x")
    case True
    have p: "p = []"
    proof (cases p)
      case Nil
      then show ?thesis .
    next
      case (Cons y p')
      with ps "2.prems"(2) have "y = x" by (cases seps) auto
      with Cons ps "2.prems"(3) True show ?thesis by auto
    qed
    from p ps "2.prems"(2) obtain sep seps' where seps: "seps = sep # seps'"
      by (cases seps) auto
    with ps "2.prems"(1) obtain q rest' where rest: "rest = q # rest'" by (cases rest) auto
    from seps "2.prems"(4) have sep: "sep \<noteq> []" "\<forall>c \<in> set sep. cls c" by auto
    let ?I = "joinWith rest seps'"
    from p ps seps "2.prems"(2) have join: "sep @ ?I = x # xs" by simp
    with sep obtain sep' where sep': "sep = x # sep'" by (cases sep) auto
    with join have xs: "xs = sep' @ ?I" by simp
    have start: "?I = [] \<or> \<not> cls (hd ?I)"
    proof (cases q)
      case Nil
      have "rest' = []"
      proof (rule ccontr)
        assume "rest' \<noteq> []"
        with rest ps have "q \<in> set (butlast (tl ps))" by simp
        with "2.prems"(5) Nil show False by blast
      qed
      with rest seps ps "2.prems"(1) Nil show ?thesis by simp
    next
      case (Cons y q')
      with rest ps "2.prems"(3) have "\<not> cls y" by auto
      moreover from Cons rest have "hd ?I = y" by (cases seps') auto
      ultimately show ?thesis by simp
    qed
    have "dropWhile cls xs = dropWhile cls ?I"
      using xs sep sep' by (simp add: dropWhile_append)
    also have "\<dots> = ?I"
      using start by (cases ?I) auto
    finally have drop: "joinWith rest seps' = dropWhile cls xs" by simp
    have inner: "\<forall>p \<in> set (butlast (tl rest)). p \<noteq> []"
      using "2.prems"(5) ps rest by (cases rest') auto
    have len: "length rest = Suc (length seps')"
      using ps seps "2.prems"(1) by simp
    have free: "\<forall>p \<in> set rest. \<forall>c \<in> set p. \<not> cls c"
      using ps "2.prems"(3) by simp
    have runs: "\<forall>sep \<in> set seps'. sep \<noteq> [] \<and> (\<forall>c \<in> set sep. cls c)"
      using seps "2.prems"(4) by simp
    have "rest = regexpSplit cls (dropWhile cls xs)"
      by (rule "2.IH"(1) [OF True len drop free runs inner])
    with True p ps show ?thesis by simp
  next
    case False
    have "p \<noteq> []"
    proof
      assume p: "p = []"
      show False
      proof (cases seps)
        case Nil
        with p ps "2.prems"(2) show False by simp
      next
        case (Cons sep seps')
        with "2.prems"(4) obtain z sep' where sep: "sep = z # sep'" "cls z"
          by (cases sep) auto
        with Cons p ps "2.prems"(2) have "z = x" by simp
        with sep False show False by simp
      qed
    qed
    then obtain y p' where p: "p = y # p'" by (cases p) auto
    with ps "2.prems"(2) have y: "y = x" and join: "joinWith (p' # rest) seps = xs"
      by (simp_all add: joinWith_Cons_head)
    have len: "length (p' # rest) = Suc (length seps)"
      using ps "2.prems"(1) by simp
    have free: "\<forall>q \<in> set (p' # rest). \<forall>c \<in> set q. \<not> cls c"
      using ps p "2.prems"(3) by simp
    have inner: "\<forall>q \<in> set (butlast (tl (p' # rest))). q \<noteq> []"
      using ps "2.prems"(5) by simp
    have "p' # rest = regexpSplit cls xs"
      by (rule "2.IH"(2) [OF False len join free "2.prems"(4) inner])
    then have "regexpSplit cls xs = p' # rest" by simp
    with False p y ps show ?thesis by simp
  qed
qed

text \<open>
  Claim C5, amended. \<^verbatim>\<open>commandSplit\<close> trims the white space around the command line and
  splits it at the runs of the space character only. The trimmed command line is the program
  name and the arguments, in order, with the maximal runs of spaces of the line between them:
  there is one argument for each run, neither the name nor an argument holds a space, and no
  argument but the last is empty. The name and the arguments are the only pieces of which this
  holds. Every other byte, a tab too, stays in the piece it is written in: a trimmed line
  without a space is the program name whole, with no argument.
\<close>

theorem commandSplit_blanks_only:
  "space \<notin> set (fst (commandSplit commandText))
   \<and> (\<forall>a \<in> set (snd (commandSplit commandText)). space \<notin> set a)
   \<and> concat (fst (commandSplit commandText) # snd (commandSplit commandText)) =
       filter (\<lambda>c. c \<noteq> space) (TrimSpace commandText)
   \<and> joinWith (fst (commandSplit commandText) # snd (commandSplit commandText))
         (runsOf isBlank (TrimSpace commandText)) = TrimSpace commandText
   \<and> length (snd (commandSplit commandText)) = length (runsOf isBlank (TrimSpace commandText))
   \<and> (\<forall>r \<in> set (runsOf isBlank (TrimSpace commandText)). r \<noteq> [] \<and> set r \<subseteq> {space})
   \<and> (\<forall>a \<in> set (butlast (snd (commandSplit commandText))). a \<noteq> [])
   \<and> (\<forall>ps seps.
         length ps = Suc (length seps)
         \<and> joinWith ps seps = TrimSpace commandText
         \<and> (\<forall>p \<in> set ps. space \<notin> set p)
         \<and> (\<forall>sep \<in> set seps. sep \<noteq> [] \<and> set sep \<subseteq> {space})
         \<and> (\<forall>p \<in> set (butlast (tl ps)). p \<noteq> [])
       \<longrightarrow> ps = fst (commandSplit commandText) # snd (commandSplit commandText))
   \<and> (space \<notin> set (TrimSpace commandText) \<longrightarrow>
         commandSplit commandText = (TrimSpace commandText, []))"
proof -
  let ?t = "TrimSpace commandText"
  let ?tokens = "regexpSplit isBlank ?t"
  have ne: "?tokens \<noteq> []" by (rule regexpSplit_not_Nil)
  have split: "fst (commandSplit commandText) # snd (commandSplit commandText) = ?tokens"
    using ne by (simp add: commandSplit_def Let_def)
  have args: "snd (commandSplit commandText) = tl ?tokens"
    by (simp add: commandSplit_def Let_def)
  have free: "space \<notin> set p" if "p \<in> set ?tokens" for p
    using regexpSplit_free [OF that, of space] by (auto simp: isBlank_def)
  have c1: "space \<notin> set (fst (commandSplit commandText))"
    using free [of "fst (commandSplit commandText)"] split [symmetric] by simp
  have c2: "\<forall>a \<in> set (snd (commandSplit commandText)). space \<notin> set a"
  proof
    fix a assume "a \<in> set (snd (commandSplit commandText))"
    then have "a \<in> set (fst (commandSplit commandText) # snd (commandSplit commandText))" by simp
    then have "a \<in> set ?tokens" by (simp only: split)
    then show "space \<notin> set a" by (rule free)
  qed
  have c3: "concat (fst (commandSplit commandText) # snd (commandSplit commandText)) =
       filter (\<lambda>c. c \<noteq> space) ?t"
    unfolding split by (simp add: concat_regexpSplit isBlank_def)
  have c4: "joinWith (fst (commandSplit commandText) # snd (commandSplit commandText))
         (runsOf isBlank ?t) = ?t"
    unfolding split by (rule regexpSplit_joinWith)
  have "length (fst (commandSplit commandText) # snd (commandSplit commandText)) =
      Suc (length (runsOf isBlank ?t))"
    unfolding split by (rule regexpSplit_length)
  then have c5: "length (snd (commandSplit commandText)) = length (runsOf isBlank ?t)" by simp
  have c6: "\<forall>r \<in> set (runsOf isBlank ?t). r \<noteq> [] \<and> set r \<subseteq> {space}"
    using runsOf_runs [of isBlank ?t] by (auto simp: isBlank_def)
  have c7: "\<forall>a \<in> set (butlast (snd (commandSplit commandText))). a \<noteq> []"
    unfolding args using regexpSplit_inner [of isBlank ?t] by blast
  have c8: "ps = fst (commandSplit commandText) # snd (commandSplit commandText)"
    if "length ps = Suc (length seps)" and "joinWith ps seps = ?t"
      and "\<forall>p \<in> set ps. space \<notin> set p"
      and "\<forall>sep \<in> set seps. sep \<noteq> [] \<and> set sep \<subseteq> {space}"
      and "\<forall>p \<in> set (butlast (tl ps)). p \<noteq> []"
    for ps seps
  proof -
    have a: "\<forall>p \<in> set ps. \<forall>c \<in> set p. \<not> isBlank c"
      using that(3) by (auto simp: isBlank_def)
    have b: "\<forall>sep \<in> set seps. sep \<noteq> [] \<and> (\<forall>c \<in> set sep. isBlank c)"
      using that(4) by (auto simp: isBlank_def)
    have "ps = ?tokens"
      by (rule regexpSplit_unique [OF that(1) that(2) a b that(5)])
    then show ?thesis by (simp only: split)
  qed
  have c9: "commandSplit commandText = (?t, [])" if "space \<notin> set ?t"
  proof -
    have "[?t] = fst (commandSplit commandText) # snd (commandSplit commandText)"
      using that by (intro c8 [of "[?t]" "[]"]) simp_all
    then show ?thesis by (simp add: prod_eq_iff)
  qed
  have c8': "\<forall>ps seps.
         length ps = Suc (length seps)
         \<and> joinWith ps seps = ?t
         \<and> (\<forall>p \<in> set ps. space \<notin> set p)
         \<and> (\<forall>sep \<in> set seps. sep \<noteq> [] \<and> set sep \<subseteq> {space})
         \<and> (\<forall>p \<in> set (butlast (tl ps)). p \<noteq> [])
       \<longrightarrow> ps = fst (commandSplit commandText) # snd (commandSplit commandText)"
  proof (intro allI impI)
    fix ps seps
    assume h: "length ps = Suc (length seps)
         \<and> joinWith ps seps = ?t
         \<and> (\<forall>p \<in> set ps. space \<notin> set p)
         \<and> (\<forall>sep \<in> set seps. sep \<noteq> [] \<and> set sep \<subseteq> {space})
         \<and> (\<forall>p \<in> set (butlast (tl ps)). p \<noteq> [])"
    show "ps = fst (commandSplit commandText) # snd (commandSplit commandText)"
      by (rule c8 [OF h [THEN conjunct1] h [THEN conjunct2, THEN conjunct1]
            h [THEN conjunct2, THEN conjunct2, THEN conjunct1]
            h [THEN conjunct2, THEN conjunct2, THEN conjunct2, THEN conjunct1]
            h [THEN conjunct2, THEN conjunct2, THEN conjunct2, THEN conjunct2]])
  qed
  have c9': "space \<notin> set ?t \<longrightarrow> commandSplit commandText = (?t, [])"
    using c9 by (rule impI)
  show ?thesis
    by (intro conjI c1 c2 c3 c4 c5 c6 c7 c8' c9')
qed


theorem commandSplit_blanks_only_witness:
  "''/mnt/snap'' \<in> set (snd (commandSplit ''mount /dev/vg0/lv1  /mnt/snap ''))
   \<and> space \<notin> set ''/mnt/snap''
   \<and> commandSplit ''mount /dev/vg0/lv1  /mnt/snap '' = (''mount'', [''/dev/vg0/lv1'', ''/mnt/snap''])
   \<and> runsOf isBlank (TrimSpace ''mount /dev/vg0/lv1  /mnt/snap '') = ['' '', ''  '']
   \<and> joinWith [''mount'', ''/dev/vg0/lv1'', ''/mnt/snap''] ['' '', ''  ''] =
       TrimSpace ''mount /dev/vg0/lv1  /mnt/snap ''
   \<and> space \<notin> set (TrimSpace (''ls'' @ [tab] @ ''-l''))
   \<and> commandSplit (''ls'' @ [tab] @ ''-l'') = (''ls'' @ [tab] @ ''-l'', [])"
proof -
  note T = commandSplit_blanks_only [of "''mount /dev/vg0/lv1  /mnt/snap ''"]
  note U = commandSplit_blanks_only [of "''ls'' @ [tab] @ ''-l''"]
  have t: "TrimSpace ''mount /dev/vg0/lv1  /mnt/snap '' = ''mount /dev/vg0/lv1  /mnt/snap''"
    by code_simp
  have r: "runsOf isBlank ''mount /dev/vg0/lv1  /mnt/snap'' = ['' '', ''  '']"
    by (simp add: isBlank_def)
  have len: "length [''mount'', ''/dev/vg0/lv1'', ''/mnt/snap''] = Suc (length ['' '', ''  ''])"
    by simp
  have join: "joinWith [''mount'', ''/dev/vg0/lv1'', ''/mnt/snap''] ['' '', ''  ''] =
      TrimSpace ''mount /dev/vg0/lv1  /mnt/snap ''"
    unfolding t by simp
  have free: "\<forall>p \<in> set [''mount'', ''/dev/vg0/lv1'', ''/mnt/snap'']. space \<notin> set p"
    by simp
  have runs: "\<forall>sep \<in> set ['' '', ''  '']. sep \<noteq> [] \<and> set sep \<subseteq> {space}"
    by simp
  have inner: "\<forall>p \<in> set (butlast (tl [''mount'', ''/dev/vg0/lv1'', ''/mnt/snap''])). p \<noteq> []"
    by simp
  have "[''mount'', ''/dev/vg0/lv1'', ''/mnt/snap''] =
      fst (commandSplit ''mount /dev/vg0/lv1  /mnt/snap '')
        # snd (commandSplit ''mount /dev/vg0/lv1  /mnt/snap '')"
    using T [THEN conjunct2, THEN conjunct2, THEN conjunct2, THEN conjunct2, THEN conjunct2,
        THEN conjunct2, THEN conjunct2, THEN conjunct1, rule_format,
        of "[''mount'', ''/dev/vg0/lv1'', ''/mnt/snap'']" "['' '', ''  '']"]
      len join free runs inner
    by blast
  then have a: "commandSplit ''mount /dev/vg0/lv1  /mnt/snap '' =
      (''mount'', [''/dev/vg0/lv1'', ''/mnt/snap''])"
    by (simp add: prod_eq_iff)
  have d: "TrimSpace (''ls'' @ [tab] @ ''-l'') = ''ls'' @ [tab] @ ''-l''"
    by code_simp
  have nosp: "space \<notin> set (TrimSpace (''ls'' @ [tab] @ ''-l''))"
    unfolding d by simp
  have e: "commandSplit (''ls'' @ [tab] @ ''-l'') = (''ls'' @ [tab] @ ''-l'', [])"
    using U [THEN conjunct2, THEN conjunct2, THEN conjunct2, THEN conjunct2, THEN conjunct2,
        THEN conjunct2, THEN conjunct2, THEN conjunct2, THEN mp, OF nosp]
    unfolding d .
  have m: "''/mnt/snap'' \<in> set (snd (commandSplit ''mount /dev/vg0/lv1  /mnt/snap ''))"
    unfolding a by simp
  have sp: "space \<notin> set ''/mnt/snap''" by simp
  have r': "runsOf isBlank (TrimSpace ''mount /dev/vg0/lv1  /mnt/snap '') = ['' '', ''  '']"
    unfolding t by (rule r)
  show ?thesis
    by (intro conjI m sp a r' join nosp e)
qed

text \<open>
  The claim as stated (a tab separates arguments, no argument holds white space) fails: the
  pattern is \<^verbatim>\<open>[ ]+\<close>, and a tab stays inside the argument it is written in.
\<close>

theorem commandSplit_tab_counterexample:
  "commandSplit (''du -sb'' @ [tab] @ ''/data'') = (''du'', [''-sb'' @ [tab] @ ''/data''])
   \<and> tab \<in> set (hd (snd (commandSplit (''du -sb'' @ [tab] @ ''/data''))))"
  by code_simp

subsection \<open>Listing the logical volumes\<close>

lemma HasPrefix_append: "HasPrefix s p \<longleftrightarrow> (\<exists>b. s = p @ b)"
  by (induction s p rule: HasPrefix.induct) auto

lemma Contains_substring: "Contains s p \<longleftrightarrow> (\<exists>a b. s = a @ p @ b)"
proof (induction s)
  case Nil
  show ?case by auto
next
  case (Cons x xs)
  show ?case
  proof
    assume "Contains (x # xs) p"
    then consider "HasPrefix (x # xs) p" | "Contains xs p" by auto
    then show "\<exists>a b. x # xs = a @ p @ b"
    proof cases
      case 1
      then obtain b where "x # xs = p @ b" by (auto simp: HasPrefix_append)
      then have "x # xs = [] @ p @ b" by simp
      then show ?thesis by blast
    next
      case 2
      with Cons.IH obtain a b where "xs = a @ p @ b" by blast
      then have "x # xs = (x # a) @ p @ b" by simp
      then show ?thesis by blast
    qed
  next
    assume "\<exists>a b. x # xs = a @ p @ b"
    then obtain a b where ab: "x # xs = a @ p @ b" by blast
    show "Contains (x # xs) p"
    proof (cases a)
      case Nil
      with ab have "HasPrefix (x # xs) p" by (auto simp: HasPrefix_append)
      then show ?thesis by simp
    next
      case (Cons y ys)
      with ab have "xs = ys @ p @ b" by simp
      with Cons.IH have "Contains xs p" by blast
      then show ?thesis by simp
    qed
  qed
qed

lemma Contains_empty: "Contains s []"
  by (cases s) auto

lemma outputTokens_rows: "outputTokens isBlankOrTab outputBytes None = (outputRows outputBytes, None)"
  by (simp add: outputTokens_def outputLines_def outputRows_def)

lemma outputTokens_error: "outputTokens cls outputBytes (Some e) = ([], Some e)"
  by (simp add: outputTokens_def outputLines_def)

lemma LogicalVolumes_loop_filter:
  "list_all (\<lambda>row. 5 \<le> length row) rows \<Longrightarrow>
   LogicalVolumes_loop scan pat rows acc =
     Returned (acc @ filter (\<lambda>lv. Contains (Name lv) pat) (map (rowVolume scan) rows))"
  by (induction rows arbitrary: acc) (simp_all add: Let_def)

lemma LogicalVolumes_loop_short:
  "\<not> list_all (\<lambda>row. 5 \<le> length row) rows \<Longrightarrow>
   LogicalVolumes_loop scan pat rows acc = IndexOutOfRange"
  by (induction rows arbitrary: acc) (auto simp: Let_def)

text \<open>
  What \<^verbatim>\<open>LogicalVolumes\<close> does: it runs the volume-list command once; it returns the error of
  a failed command; on an output whose rows all have five fields at least it returns the volumes
  of the rows whose name contains the pattern, in the order of the rows, and no error; on any
  other output it panics.
\<close>

lemma LogicalVolumes_result:
  "LogicalVolumes scan sys volumeName pat tr =
     ((case sys tr (commandSplit (lvsCommand volumeName)) of
         Inl e \<Rightarrow> Returned ([], Some e)
       | Inr outputBytes \<Rightarrow>
           if list_all (\<lambda>row. 5 \<le> length row) (outputRows outputBytes)
           then Returned (filter (\<lambda>lv. Contains (Name lv) pat)
                            (map (rowVolume scan) (outputRows outputBytes)), None)
           else IndexOutOfRange),
      tr @ [commandSplit (lvsCommand volumeName)])"
proof (cases "sys tr (commandSplit (lvsCommand volumeName))")
  case (Inl e)
  then show ?thesis
    by (simp add: LogicalVolumes_def commandOutput_def outputTokens_error Let_def)
next
  case (Inr out)
  show ?thesis
  proof (cases "list_all (\<lambda>row. 5 \<le> length row) (outputRows out)")
    case True
    with Inr show ?thesis
      by (simp add: LogicalVolumes_def commandOutput_def outputTokens_rows Let_def
          LogicalVolumes_loop_filter)
  next
    case False
    with Inr show ?thesis
      by (simp add: LogicalVolumes_def commandOutput_def outputTokens_rows Let_def
          LogicalVolumes_loop_short)
  qed
qed

lemma outputRows_empty: "outputRows [] = [[[]]]"
  by (simp add: outputRows_def Trim_def trimRightByte_def)

text \<open>
  Claim C1 says that a volume-list command that yields no rows gives an empty sequence and no
  error. The code does not: the empty output of a successful command is one empty line, the
  line is one empty field, and the loop reads the field of index 1 of that row, which panics.
\<close>

theorem LogicalVolumes_empty_output:
  "fst (LogicalVolumes scan (\<lambda>t c. Inr []) volumeName filterPattern tr) = IndexOutOfRange"
  by (simp add: LogicalVolumes_result outputRows_empty)

text \<open>
  Claim C2, amended. On an output whose rows all have five fields at least,
  \<^verbatim>\<open>LogicalVolumes\<close> returns no error, whatever \<^verbatim>\<open>ParseFloat\<close> makes of the fifth fields, and
  its volumes are those of the rows whose name contains the pattern. In the volume of a row,
  \<^verbatim>\<open>IsSnapshot\<close> is true exactly when \<^verbatim>\<open>ParseFloat\<close> returns no error for the fifth field, and
  the percent is then the number parsed; when the field is no number the percent is zero; when
  the field is a number too large for a \<^verbatim>\<open>float32\<close> the percent is the infinity of its sign.
\<close>

theorem LogicalVolumes_snapshot_fields:
  "(sys tr (commandSplit (lvsCommand volumeName)) = Inr outputBytes
      \<and> list_all (\<lambda>row. 5 \<le> length row) (outputRows outputBytes) \<longrightarrow>
    fst (LogicalVolumes scan sys volumeName filterPattern tr) =
      Returned (filter (\<lambda>lv. Contains (Name lv) filterPattern)
                  (map (rowVolume scan) (outputRows outputBytes)), None))
   \<and> (IsSnapshot (rowVolume scan row), SnapshotPercent (rowVolume scan row)) =
       (case scan (row ! 4) of
          Parsed f \<Rightarrow> (True, f)
        | NotANumber \<Rightarrow> (False, Finite 0)
        | TooLarge neg \<Rightarrow> (False, if neg then NegInf else PosInf))"
  by (simp add: LogicalVolumes_result rowVolume_def ParseFloat_def split: float_scan.splits)

theorem LogicalVolumes_snapshot_fields_witness:
  "fst (LogicalVolumes (\<lambda>s. if s = ''12.50'' then Parsed (Finite 12.5) else NotANumber)
          (\<lambda>t c. Inr (''  snap1 vg0 /dev/vg0/snap1 12.50'' @ [newline]
                       @ ''  root vg0 /dev/vg0/root '' @ [newline]))
          [] [] []) =
     Returned ([\<lparr>Name = ''snap1'', GroupName = ''vg0'', LogicalVolume.Path = ''/dev/vg0/snap1'',
                  IsSnapshot = True, SnapshotPercent = Finite 12.5\<rparr>,
                \<lparr>Name = ''root'', GroupName = ''vg0'', LogicalVolume.Path = ''/dev/vg0/root'',
                  IsSnapshot = False, SnapshotPercent = Finite 0\<rparr>], None)"
proof -
  let ?out = "''  snap1 vg0 /dev/vg0/snap1 12.50'' @ [newline] @ ''  root vg0 /dev/vg0/root '' @ [newline]"
  have rows: "outputRows ?out =
      [['''', ''snap1'', ''vg0'', ''/dev/vg0/snap1'', ''12.50''],
       ['''', ''root'', ''vg0'', ''/dev/vg0/root'', '''']]"
    by (simp add: outputRows_def Trim_def trimRightByte_def isBlankOrTab_def)
  show ?thesis
    using LogicalVolumes_snapshot_fields [THEN conjunct1, rule_format,
        of "\<lambda>t c. Inr ?out" "[]" "[]" ?out
           "\<lambda>s. if s = ''12.50'' then Parsed (Finite 12.5) else NotANumber" "[]"]
      rows
    by (simp add: rowVolume_def ParseFloat_def)
qed

text \<open>
  The claim as stated (a field that does not parse gives a percent of zero) fails for the field
  \<^verbatim>\<open>1e39\<close>, a number beyond the largest \<^verbatim>\<open>float32\<close>: \<^verbatim>\<open>ParseFloat\<close> returns plus infinity with
  its range error, the volume is no snapshot and its percent is plus infinity.
\<close>

theorem LogicalVolumes_range_error_counterexample:
  "fst (LogicalVolumes (\<lambda>s. if s = ''1e39'' then TooLarge False else NotANumber)
          (\<lambda>t c. Inr (''  lv1 vg0 /dev/vg0/lv1 1e39'' @ [newline])) [] [] []) =
     Returned ([\<lparr>Name = ''lv1'', GroupName = ''vg0'', LogicalVolume.Path = ''/dev/vg0/lv1'',
                  IsSnapshot = False, SnapshotPercent = PosInf\<rparr>], None)
   \<and> PosInf \<noteq> Finite 0"
proof -
  have rows: "outputRows (''  lv1 vg0 /dev/vg0/lv1 1e39'' @ [newline]) =
      [['''', ''lv1'', ''vg0'', ''/dev/vg0/lv1'', ''1e39'']]"
    by (simp add: outputRows_def Trim_def trimRightByte_def isBlankOrTab_def)
  show ?thesis
    using rows by (simp add: LogicalVolumes_result rowVolume_def ParseFloat_def)
qed

subsection \<open>The state of a mount point\<close>

text \<open>
  Claim C3. When the lookup of the mount point in the mount table fails (the command did not
  start or exited non-zero), \<^verbatim>\<open>GetMount\<close> returns the mount point as not mounted, with an
  empty device, an empty file system and a disk usage of zero, and no error; the lookup is the
  only command it runs.
\<close>

theorem GetMount_lookup_failed:
  assumes "sys tr (commandSplit (''grep '' @ mountPoint @ '' /etc/mtab'')) = Inl e"
  shows "GetMount scan sys mountPoint tr =
     (Returned (\<lparr>Mount.Path = mountPoint, Device = [], LVPath = [], FileSystem = [],
                 IsMounted = False, Mount.DiskUsage = 0\<rparr>, None),
      tr @ [commandSplit (''grep '' @ mountPoint @ '' /etc/mtab'')])"
  using assms
  by (simp add: GetMount_def commandOutput_def outputTokens_def outputLines_def unmounted_def Let_def)

theorem GetMount_lookup_failed_witness:
  "(\<lambda>t c. Inl (ExecError ''exit status 1'')) [] (commandSplit (''grep '' @ ''/mnt/snap'' @ '' /etc/mtab''))
     = (Inl (ExecError ''exit status 1'') :: error + string)
   \<and> fst (GetMount (\<lambda>s. NotANumber) (\<lambda>t c. Inl (ExecError ''exit status 1'')) ''/mnt/snap'' []) =
       Returned (\<lparr>Mount.Path = ''/mnt/snap'', Device = [], LVPath = [], FileSystem = [],
                 IsMounted = False, Mount.DiskUsage = 0\<rparr>, None)"
  using GetMount_lookup_failed [of "\<lambda>t c. Inl (ExecError ''exit status 1'')" "[]" "''/mnt/snap''"
      "ExecError ''exit status 1''" "\<lambda>s. NotANumber"]
  by simp

text \<open>
  Claim C7. With an empty volume name \<^verbatim>\<open>MountLV\<close> returns the error of the empty name
  together with the mount point as not mounted, and the trace of commands is the one it was
  given: no command is run.
\<close>

theorem MountLV_empty_volumeName:
  "MountLV scan sys mountPoint [] tr =
     (Returned (\<lparr>Mount.Path = mountPoint, Device = [], LVPath = [], FileSystem = [],
                 IsMounted = False, Mount.DiskUsage = 0\<rparr>,
                Some (ErrorString ''Empty columeName in MountLV'')), tr)"
  by (simp add: MountLV_def unmounted_def)

lemma GetLogicalVolumePath_trace:
  "snd (GetLogicalVolumePath scan sys dev t) = t @ [commandSplit (lvsCommand dev)]"
  by (simp add: GetLogicalVolumePath_def LogicalVolumes_result split: sum.splits)

lemma GetLogicalVolumePath_returns:
  assumes "\<And>outputBytes. sys t (commandSplit (lvsCommand dev)) = Inr outputBytes \<Longrightarrow>
             list_all (\<lambda>row. 5 \<le> length row) (outputRows outputBytes)"
  shows "\<exists>r. fst (GetLogicalVolumePath scan sys dev t) = Returned r"
  using assms
  by (cases "sys t (commandSplit (lvsCommand dev))")
     (simp_all add: GetLogicalVolumePath_def LogicalVolumes_result)

lemma GetMount_loop_returns:
  assumes "\<forall>t dev outputBytes. sys t (commandSplit (lvsCommand dev)) = Inr outputBytes \<longrightarrow>
             list_all (\<lambda>row. 5 \<le> length row) (outputRows outputBytes)"
    and "list_all (\<lambda>row. 3 \<le> length row) rows"
  shows "\<exists>m. fst (GetMount_loop scan sys mountPoint rows mount tr) = Returned m"
  using assms(2)
proof (induction rows arbitrary: mount tr)
  case Nil
  show ?case by simp
next
  case (Cons row rows)
  then have len: "\<not> length row < 3" and rest: "list_all (\<lambda>row. 3 \<le> length row) rows"
    by auto
  obtain r tr1 where lv: "GetLogicalVolumePath scan sys (row ! 0) tr = (Returned r, tr1)"
    using GetLogicalVolumePath_returns [of sys tr "row ! 0" scan] assms(1)
    by (cases "GetLogicalVolumePath scan sys (row ! 0) tr") auto
  obtain lvPath err1 where r: "r = (lvPath, err1)" by (cases r)
  obtain usage err2 tr2 where du: "DiskUsage sys mountPoint tr1 = ((usage, err2), tr2)"
    by (cases "DiskUsage sys mountPoint tr1") auto
  show ?case
    using len lv r du Cons.IH [OF rest] by simp
qed

lemma GetMount_never_error: "fst (GetMount scan sys mountPoint tr) \<noteq> Returned (m, Some e)"
  by (auto simp: GetMount_def Let_def split: prod.splits option.splits run.splits)

text \<open>
  Claim C10, amended. \<^verbatim>\<open>GetMount\<close> never returns an error that is not nil. It returns, with a
  nil error, when the lookup fails, and also when the lookup finds rows that all have three
  fields at least and every output of the volume-list command has rows of five fields at
  least, whether the volume-list command and the disk-usage command of a row succeed or fail:
  their errors are dropped.
\<close>

theorem GetMount_error_nil:
  "(\<forall>m e. fst (GetMount scan sys mountPoint tr) \<noteq> Returned (m, Some e))
   \<and> ((\<forall>outputBytes. sys tr (commandSplit (''grep '' @ mountPoint @ '' /etc/mtab'')) = Inr outputBytes \<longrightarrow>
          list_all (\<lambda>row. 3 \<le> length row) (outputRows outputBytes))
       \<and> (\<forall>t dev outputBytes. sys t (commandSplit (lvsCommand dev)) = Inr outputBytes \<longrightarrow>
          list_all (\<lambda>row. 5 \<le> length row) (outputRows outputBytes))
       \<longrightarrow> (\<exists>m. fst (GetMount scan sys mountPoint tr) = Returned (m, None)))"
proof (intro conjI allI impI)
  fix m e
  show "fst (GetMount scan sys mountPoint tr) \<noteq> Returned (m, Some e)"
    by (rule GetMount_never_error)
next
  let ?cmd = "commandSplit (''grep '' @ mountPoint @ '' /etc/mtab'')"
  assume H: "(\<forall>outputBytes. sys tr ?cmd = Inr outputBytes \<longrightarrow>
          list_all (\<lambda>row. 3 \<le> length row) (outputRows outputBytes))
       \<and> (\<forall>t dev outputBytes. sys t (commandSplit (lvsCommand dev)) = Inr outputBytes \<longrightarrow>
          list_all (\<lambda>row. 5 \<le> length row) (outputRows outputBytes))"
  show "\<exists>m. fst (GetMount scan sys mountPoint tr) = Returned (m, None)"
  proof (cases "sys tr ?cmd")
    case (Inl e)
    then show ?thesis
      by (simp add: GetMount_def commandOutput_def outputTokens_error Let_def)
  next
    case (Inr out)
    with H have rows: "list_all (\<lambda>row. 3 \<le> length row) (outputRows out)" by blast
    from H have lvs: "\<forall>t dev outputBytes. sys t (commandSplit (lvsCommand dev)) = Inr outputBytes \<longrightarrow>
             list_all (\<lambda>row. 5 \<le> length row) (outputRows outputBytes)" by blast
    obtain m where
      "fst (GetMount_loop scan sys mountPoint (outputRows out) (unmounted mountPoint) (tr @ [?cmd])) = Returned m"
      using GetMount_loop_returns [OF lvs rows] by blast
    with Inr show ?thesis
      by (cases "GetMount_loop scan sys mountPoint (outputRows out) (unmounted mountPoint) (tr @ [?cmd])")
         (simp add: GetMount_def commandOutput_def outputTokens_rows Let_def)
  qed
qed

theorem GetMount_error_nil_witness:
  "fst (GetMount (\<lambda>s. NotANumber)
          (\<lambda>t c. if t = [] then Inr (''/dev/vg0/lv1 /mnt/snap ext4 rw 0 0'' @ [newline])
                  else Inl (ExecError ''exit status 1''))
          ''/mnt/snap'' []) =
     Returned (\<lparr>Mount.Path = ''/mnt/snap'', Device = ''/dev/vg0/lv1'', LVPath = [],
                 FileSystem = ''ext4'', IsMounted = True, Mount.DiskUsage = 0\<rparr>, None)
   \<and> (\<exists>m. fst (GetMount (\<lambda>s. NotANumber)
          (\<lambda>t c. if t = [] then Inr (''/dev/vg0/lv1 /mnt/snap ext4 rw 0 0'' @ [newline])
                  else Inl (ExecError ''exit status 1''))
          ''/mnt/snap'' []) = Returned (m, None))"
proof -
  let ?out = "''/dev/vg0/lv1 /mnt/snap ext4 rw 0 0'' @ [newline]"
  let ?sys = "\<lambda>(t :: trace) (c :: command). if t = [] then Inr ?out else Inl (ExecError ''exit status 1'')"
  have rows: "outputRows ?out = [[''/dev/vg0/lv1'', ''/mnt/snap'', ''ext4'', ''rw'', ''0'', ''0'']]"
    by (simp add: outputRows_def Trim_def trimRightByte_def isBlankOrTab_def)
  have h1: "\<forall>outputBytes. ?sys [] (commandSplit (''grep '' @ ''/mnt/snap'' @ '' /etc/mtab'')) = Inr outputBytes \<longrightarrow>
          list_all (\<lambda>row. 3 \<le> length row) (outputRows outputBytes)"
    using rows by simp
  have h2: "\<forall>t dev outputBytes. ?sys t (commandSplit (lvsCommand dev)) = Inr outputBytes \<longrightarrow>
          list_all (\<lambda>row. 5 \<le> length row) (outputRows outputBytes)"
    using rows by simp
  have ex: "\<exists>m. fst (GetMount (\<lambda>s. NotANumber) ?sys ''/mnt/snap'' []) = Returned (m, None)"
    using GetMount_error_nil [of "\<lambda>s. NotANumber" ?sys "''/mnt/snap''" "[]"] h1 h2 by blast
  have val: "fst (GetMount (\<lambda>s. NotANumber) ?sys ''/mnt/snap'' []) =
     Returned (\<lparr>Mount.Path = ''/mnt/snap'', Device = ''/dev/vg0/lv1'', LVPath = [],
                 FileSystem = ''ext4'', IsMounted = True, Mount.DiskUsage = 0\<rparr>, None)"
    using rows
    by (simp add: GetMount_def commandOutput_def outputTokens_rows outputTokens_error Let_def
        GetLogicalVolumePath_def LogicalVolumes_result DiskUsage_def unmounted_def)
  from val ex show ?thesis by simp
qed

text \<open>
  The claim as stated (a nil error is returned for every outcome of the commands) fails when
  the lookup prints a row of fewer than three fields, as \<^verbatim>\<open>grep -c / /etc/mtab\<close> does for the
  mount point \<^verbatim>\<open>-c /\<close>: the call panics and returns nothing.
\<close>

theorem GetMount_short_row_counterexample:
  "fst (GetMount (\<lambda>s. NotANumber) (\<lambda>t c. Inr (''31'' @ [newline])) ''-c /'' []) = IndexOutOfRange"
proof -
  have rows: "outputRows (''31'' @ [newline]) = [[''31'']]"
    by (simp add: outputRows_def Trim_def trimRightByte_def isBlankOrTab_def)
  show ?thesis
    using rows by (simp add: GetMount_def commandOutput_def outputTokens_rows Let_def)
qed

subsection \<open>Disk usage\<close>

lemma digit_le_9: "digit d = Some v \<Longrightarrow> v \<le> 9"
  by (auto simp: digit_def Let_def split: if_splits)

lemma foldl_digits_mono: "n \<le> foldl (\<lambda>n d. 10 * n + the (digit d)) n ds"
proof (induction ds arbitrary: n)
  case Nil
  show ?case by simp
next
  case (Cons d ds)
  have "n \<le> 10 * n + the (digit d)" by simp
  also have "\<dots> \<le> foldl (\<lambda>n d. 10 * n + the (digit d)) (10 * n + the (digit d)) ds"
    by (rule Cons.IH)
  finally show ?case by simp
qed

lemma ParseUint_loop_value:
  "list_all (\<lambda>d. digit d \<noteq> None) ds \<Longrightarrow>
   foldl (\<lambda>n d. 10 * n + the (digit d)) n ds < 2 ^ 64 \<Longrightarrow>
   ParseUint_loop n ds = (foldl (\<lambda>n d. 10 * n + the (digit d)) n ds, None)"
proof (induction ds arbitrary: n)
  case Nil
  show ?case by simp
next
  case (Cons d ds)
  from Cons.prems(1) obtain v where v: "digit d = Some v" and rest: "list_all (\<lambda>d. digit d \<noteq> None) ds"
    by auto
  let ?n1 = "10 * n + v"
  have fold: "foldl (\<lambda>n d. 10 * n + the (digit d)) n (d # ds) = foldl (\<lambda>n d. 10 * n + the (digit d)) ?n1 ds"
    using v by simp
  have "?n1 \<le> foldl (\<lambda>n d. 10 * n + the (digit d)) ?n1 ds" by (rule foldl_digits_mono)
  with Cons.prems(2) fold have small: "?n1 < 2 ^ 64" by simp
  then have n: "\<not> cutoff64 \<le> n" by (simp add: cutoff64_def maxUint64_def)
  have m: "(n * 10 + v) mod 2 ^ 64 = ?n1" using small by (simp add: mult.commute)
  have "ParseUint_loop n (d # ds) = ParseUint_loop ((n * 10 + v) mod 2 ^ 64) ds"
    using v n m small by (simp add: Let_def maxUint64_def)
  also have "\<dots> = ParseUint_loop ?n1 ds"
    by (simp only: m)
  also have "\<dots> = (foldl (\<lambda>n d. 10 * n + the (digit d)) ?n1 ds, None)"
    using rest Cons.prems(2) fold by (intro Cons.IH) simp_all
  finally show ?case using fold by simp
qed

lemma ParseUint_loop_error:
  "\<not> list_all (\<lambda>d. digit d \<noteq> None) ds \<Longrightarrow>
   ParseUint_loop n ds = (0, Some ErrSyntax) \<or> ParseUint_loop n ds = (maxUint64, Some ErrRange)"
  by (induction ds arbitrary: n) (auto simp: Let_def split: option.splits)

lemma ParseInt_not_decimal:
  assumes "\<not> isDecimal s"
  shows "\<exists>n k. ParseInt s = (n, Some (NumError ''ParseInt'' s k))"
proof (cases "s = []")
  case True
  then show ?thesis by (simp add: ParseInt_def)
next
  case False
  let ?ds = "if hd s = CHR ''+'' \<or> hd s = CHR ''-'' then tl s else s"
  from assms False have bad: "?ds = [] \<or> \<not> list_all (\<lambda>d. digit d \<noteq> None) ?ds"
    by (auto simp: isDecimal_def Let_def split: if_splits)
  have "ParseUint ?ds = (0, Some ErrSyntax) \<or> ParseUint ?ds = (maxUint64, Some ErrRange)"
  proof (cases "?ds = []")
    case True
    then show ?thesis by (simp add: ParseUint_def)
  next
    case False
    with bad have "\<not> list_all (\<lambda>d. digit d \<noteq> None) ?ds" by blast
    from ParseUint_loop_error [OF this, of 0] False show ?thesis by (simp add: ParseUint_def)
  qed
  then show ?thesis
  proof
    assume "ParseUint ?ds = (0, Some ErrSyntax)"
    with False show ?thesis by (auto simp: ParseInt_def Let_def)
  next
    assume "ParseUint ?ds = (maxUint64, Some ErrRange)"
    with False show ?thesis by (auto simp: ParseInt_def Let_def maxUint64_def IntSize_def)
  qed
qed

lemma ParseInt_decimal:
  assumes "isDecimal s" and "- (2 ^ 63) \<le> decimalInt s" and "decimalInt s < 2 ^ 63"
  shows "ParseInt s = (decimalInt s, None)"
proof -
  from assms(1) have ne: "s \<noteq> []" by (auto simp: isDecimal_def Let_def)
  let ?ds = "if hd s = CHR ''+'' \<or> hd s = CHR ''-'' then tl s else s"
  from assms(1) ne have digits: "list_all (\<lambda>d. digit d \<noteq> None) ?ds" and "?ds \<noteq> []"
    by (auto simp: isDecimal_def Let_def split: if_splits)
  have val: "decimalInt s = (if hd s = CHR ''-'' then - int (decimalValue ?ds) else int (decimalValue ?ds))"
    using ne by (auto simp: decimalInt_def)
  with assms(2,3) have bound: "int (decimalValue ?ds) \<le> 2 ^ 63" 
    by (auto split: if_splits)
  then have "int (decimalValue ?ds) \<le> int (2 ^ 63)" by simp
  then have "decimalValue ?ds \<le> 2 ^ 63" by (simp only: of_nat_le_iff)
  then have "decimalValue ?ds < 2 ^ 64" by simp
  then have "ParseUint_loop 0 ?ds = (decimalValue ?ds, None)"
    unfolding decimalValue_def by (intro ParseUint_loop_value digits)
  with \<open>?ds \<noteq> []\<close> have un: "ParseUint ?ds = (decimalValue ?ds, None)" by (simp add: ParseUint_def)
  show ?thesis
  proof (cases "hd s = CHR ''-''")
    case True
    with val assms(2) have "int (decimalValue ?ds) \<le> int (2 ^ 63)" by simp
    then have "decimalValue ?ds \<le> 2 ^ 63" by (simp only: of_nat_le_iff)
    then have "\<not> (2::nat) ^ 63 < decimalValue ?ds" by simp
    with True ne un val show ?thesis by (simp add: ParseInt_def Let_def IntSize_def)
  next
    case False
    with val assms(3) have "int (decimalValue ?ds) < int (2 ^ 63)" by simp
    then have "decimalValue ?ds < 2 ^ 63" by (simp only: of_nat_less_iff)
    then have "\<not> (2::nat) ^ 63 \<le> decimalValue ?ds" by simp
    with False ne un val show ?thesis by (simp add: ParseInt_def Let_def IntSize_def)
  qed
qed

lemma DiskUsage_result:
  "fst (DiskUsage sys path tr) =
     (case sys tr (commandSplit (''du -sb '' @ path)) of
        Inl err \<Rightarrow> (0, Some err)
      | Inr outputBytes \<Rightarrow> ParseInt (firstField outputBytes))"
proof (cases "sys tr (commandSplit (''du -sb '' @ path))")
  case (Inl e)
  then show ?thesis
    by (simp add: DiskUsage_def commandOutput_def outputTokens_def outputLines_def Let_def)
next
  case (Inr out)
  obtain l ls where "Split (Trim out newline) newline = l # ls"
    using Split_not_Nil by (cases "Split (Trim out newline) newline") auto
  with Inr show ?thesis
    by (simp add: DiskUsage_def commandOutput_def outputTokens_def outputLines_def Let_def firstField_def)
qed

text \<open>
  Claim C8. \<^verbatim>\<open>DiskUsage\<close> returns the error of the command when the command fails. On the
  output \<^verbatim>\<open>12345\<close>, tab, \<^verbatim>\<open>/some/path\<close> it returns 12345 and no error. When the first field of
  the first row of the output is no decimal numeral it returns the error of \<^verbatim>\<open>ParseInt\<close> about
  that field; when it is a decimal numeral in the range of an \<^verbatim>\<open>int64\<close> it returns the integer
  the numeral denotes and no error.
\<close>

theorem DiskUsage_first_field:
  "(\<forall>sys e. sys tr (commandSplit (''du -sb '' @ path)) = Inl e \<longrightarrow>
       fst (DiskUsage sys path tr) = (0, Some e))
   \<and> (\<forall>sys. sys tr (commandSplit (''du -sb '' @ path)) = Inr (''12345'' @ [tab] @ ''/some/path'') \<longrightarrow>
       fst (DiskUsage sys path tr) = (12345, None))
   \<and> (\<forall>sys output. sys tr (commandSplit (''du -sb '' @ path)) = Inr output
         \<and> \<not> isDecimal (firstField output) \<longrightarrow>
       (\<exists>n k. fst (DiskUsage sys path tr) = (n, Some (NumError ''ParseInt'' (firstField output) k))))
   \<and> (\<forall>sys output. sys tr (commandSplit (''du -sb '' @ path)) = Inr output
         \<and> isDecimal (firstField output)
         \<and> - (2 ^ 63) \<le> decimalInt (firstField output) \<and> decimalInt (firstField output) < 2 ^ 63 \<longrightarrow>
       fst (DiskUsage sys path tr) = (decimalInt (firstField output), None))"
proof -
  have field: "firstField (''12345'' @ [tab] @ ''/some/path'') = ''12345''"
    by (simp add: firstField_def Trim_def trimRightByte_def isBlankOrTab_def)
  have num: "ParseInt ''12345'' = (12345, None)"
    by (simp add: ParseInt_def ParseUint_def digit_def cutoff64_def maxUint64_def IntSize_def)
  show ?thesis
    using field num ParseInt_not_decimal ParseInt_decimal
    by (simp add: DiskUsage_result)
qed

theorem DiskUsage_first_field_witness:
  "fst (DiskUsage (\<lambda>t c. Inl (ExecError ''exit status 1'')) ''/some/path'' []) =
     (0, Some (ExecError ''exit status 1''))
   \<and> fst (DiskUsage (\<lambda>t c. Inr (''12345'' @ [tab] @ ''/some/path'')) ''/some/path'' []) = (12345, None)
   \<and> \<not> isDecimal (firstField ''du: cannot access'')
   \<and> (\<exists>n k. fst (DiskUsage (\<lambda>t c. Inr ''du: cannot access'') ''/some/path'' []) =
         (n, Some (NumError ''ParseInt'' (firstField ''du: cannot access'') k)))
   \<and> isDecimal (firstField (''-42 x''))
   \<and> fst (DiskUsage (\<lambda>t c. Inr (''-42 x'')) ''/some/path'' []) = (- 42, None)"
proof -
  have f1: "firstField ''du: cannot access'' = ''du:''"
    by (simp add: firstField_def Trim_def trimRightByte_def isBlankOrTab_def)
  have f2: "firstField ''-42 x'' = ''-42''"
    by (simp add: firstField_def Trim_def trimRightByte_def isBlankOrTab_def)
  have d1: "\<not> isDecimal ''du:''" by (simp add: isDecimal_def digit_def)
  have d2: "isDecimal ''-42''" by (simp add: isDecimal_def digit_def)
  have v2: "decimalInt ''-42'' = - 42" by (simp add: decimalInt_def decimalValue_def digit_def)
  note T = DiskUsage_first_field [of "[]" "''/some/path''"]
  have a: "fst (DiskUsage (\<lambda>t c. Inl (ExecError ''exit status 1'')) ''/some/path'' []) =
      (0, Some (ExecError ''exit status 1''))"
    using T [THEN conjunct1, rule_format,
        of "\<lambda>t c. Inl (ExecError ''exit status 1'')" "ExecError ''exit status 1''"]
    by simp
  have b: "fst (DiskUsage (\<lambda>t c. Inr (''12345'' @ [tab] @ ''/some/path'')) ''/some/path'' []) =
      (12345, None)"
    using T [THEN conjunct2, THEN conjunct1, rule_format,
        of "\<lambda>t c. Inr (''12345'' @ [tab] @ ''/some/path'')"]
    by simp
  have c: "\<exists>n k. fst (DiskUsage (\<lambda>t c. Inr ''du: cannot access'') ''/some/path'' []) =
         (n, Some (NumError ''ParseInt'' (firstField ''du: cannot access'') k))"
    using T [THEN conjunct2, THEN conjunct2, THEN conjunct1, rule_format,
        of "\<lambda>t c. Inr ''du: cannot access''" "''du: cannot access''"] f1 d1
    by simp
  have d: "fst (DiskUsage (\<lambda>t c. Inr (''-42 x'')) ''/some/path'' []) = (- 42, None)"
    using T [THEN conjunct2, THEN conjunct2, THEN conjunct2, rule_format,
        of "\<lambda>t c. Inr ''-42 x''" "''-42 x''"] f2 d2 v2
    by simp
  show ?thesis
    using a b c d f1 f2 d1 d2 by simp
qed

subsection \<open>The state of the service\<close>

text \<open>
  Claim C9. \<^verbatim>\<open>MySQLRunning\<close> runs the configured status command once. It returns true when
  the command succeeds and false when it fails, and its error is nil in either case.
\<close>

theorem MySQLRunning_exit_status:
  "MySQLRunning config sys tr =
     ((case sys tr (commandSplit (MySQLServiceStatusCommand config)) of
         Inl err \<Rightarrow> False | Inr output \<Rightarrow> True, None),
      tr @ [commandSplit (MySQLServiceStatusCommand config)])"
  by (simp add: MySQLRunning_def commandOutput_def Let_def split: sum.splits)

end
